theory Spec2Isabelle
  imports Complex_Main "HOL-Library.Word"
begin

section \<open>Raster images\<close>

text \<open>
  The script \<^verbatim>\<open>combine_images.py\<close> manipulates Pillow image objects. An image is its
  size together with its pixels; the pixels of an RGBA image are four bytes, those of
  an \<^verbatim>\<open>L\<close> image one byte. Sizes and coordinates are Python integers.
\<close>

type_synonym byte = "8 word"
type_synonym rgba = "byte \<times> byte \<times> byte \<times> byte"
type_synonym box = "int \<times> int \<times> int \<times> int"

record 'p image =
  width :: int
  height :: int
  px :: "int \<Rightarrow> int \<Rightarrow> 'p"

definition in_bounds :: "'p image \<Rightarrow> int \<Rightarrow> int \<Rightarrow> bool" where
  "in_bounds img x y \<longleftrightarrow> 0 \<le> x \<and> x < width img \<and> 0 \<le> y \<and> y < height img"

definition size_of :: "'p image \<Rightarrow> int \<times> int" where
  \<comment> \<open>\<^verbatim>\<open>img.size\<close>\<close>
  "size_of img = (width img, height img)"

definition transparent :: rgba where
  "transparent = (0, 0, 0, 0)"

definition alpha :: "rgba \<Rightarrow> byte" where
  "alpha p = (case p of (r, g, b, a) \<Rightarrow> a)"

definition new_image :: "int \<times> int \<Rightarrow> 'p \<Rightarrow> 'p image" where
  \<comment> \<open>\<^verbatim>\<open>Image.new(mode, size, color)\<close>\<close>
  "new_image sz c = \<lparr>width = fst sz, height = snd sz, px = (\<lambda>x y. c)\<rparr>"

subsection \<open>What the script takes from the imaging library\<close>

text \<open>
  Four behaviours of Pillow are not fixed by the script and are parameters of the model:
  which pixels \<^verbatim>\<open>ImageDraw.rounded_rectangle\<close> covers for a bounding box and a radius,
  the size that \<^verbatim>\<open>Image.thumbnail\<close> computes, in double-precision arithmetic, for an
  image of a given size that exceeds the requested size, the pixels that Lanczos
  resampling computes for a target size, and whether \<^verbatim>\<open>getbbox\<close> looks at the alpha band
  only (its default since Pillow 10) or at all four bands (earlier releases).
\<close>

record pil =
  rounded_shape :: "box \<Rightarrow> int \<Rightarrow> int \<Rightarrow> int \<Rightarrow> bool"
  thumbnail_size :: "int \<times> int \<Rightarrow> int \<times> int \<Rightarrow> int \<times> int"
  lanczos :: "rgba image \<Rightarrow> int \<times> int \<Rightarrow> int \<Rightarrow> int \<Rightarrow> rgba"
  bbox_alpha_only :: bool

definition rounded_rectangle :: "pil \<Rightarrow> 'p image \<Rightarrow> box \<Rightarrow> int \<Rightarrow> 'p \<Rightarrow> 'p image" where
  \<comment> \<open>\<^verbatim>\<open>ImageDraw.Draw(img).rounded_rectangle(xy, radius, fill=fill)\<close>: the covered pixels
      of the image are overwritten with the fill colour.\<close>
  "rounded_rectangle L img xy radius fill =
     img\<lparr>px := (\<lambda>x y. if in_bounds img x y \<and> rounded_shape L xy radius x y
                        then fill else px img x y)\<rparr>"

definition putalpha :: "rgba image \<Rightarrow> byte image \<Rightarrow> rgba image" where
  \<comment> \<open>\<^verbatim>\<open>img.putalpha(mask)\<close> with an \<^verbatim>\<open>L\<close> image of the same size: the alpha band is
      replaced by the mask.\<close>
  "putalpha img msk =
     img\<lparr>px := (\<lambda>x y. case px img x y of (r, g, b, a) \<Rightarrow> (r, g, b, px msk x y))\<rparr>"

subsection \<open>Pasting through a mask\<close>

definition DIV255 :: "nat \<Rightarrow> nat" where
  \<comment> \<open>Pillow's macro: \<^verbatim>\<open>tmp = a + 128, (((tmp >> 8) + tmp) >> 8)\<close>\<close>
  "DIV255 a = (let tmp = a + 128 in ((tmp div 256) + tmp) div 256)"

definition BLEND :: "byte \<Rightarrow> byte \<Rightarrow> byte \<Rightarrow> byte" where
  \<comment> \<open>Pillow's macro: \<^verbatim>\<open>DIV255(in1 * (255 - mask) + in2 * mask, tmp)\<close>\<close>
  "BLEND m in1 in2 = of_nat (DIV255 (unat in1 * (255 - unat m) + unat in2 * unat m))"

definition blend_px :: "byte \<Rightarrow> rgba \<Rightarrow> rgba \<Rightarrow> rgba" where
  "blend_px m d s =
     (case d of (dr, dg, db, da) \<Rightarrow> case s of (sr, sg, sb, sa) \<Rightarrow>
        (BLEND m dr sr, BLEND m dg sg, BLEND m db sb, BLEND m da sa))"

definition paste :: "rgba image \<Rightarrow> rgba image \<Rightarrow> int \<times> int \<Rightarrow> rgba image \<Rightarrow> rgba image" where
  \<comment> \<open>\<^verbatim>\<open>dst.paste(src, (bx, by), mask)\<close> with an RGBA mask of the size of \<^verbatim>\<open>src\<close>: the part
      of \<^verbatim>\<open>src\<close> that falls inside \<^verbatim>\<open>dst\<close> is blended in, band by band, weighted by the
      alpha band of the mask.\<close>
  "paste dst src xy msk =
     dst\<lparr>px := (\<lambda>x y.
        if in_bounds dst x y \<and> in_bounds src (x - fst xy) (y - snd xy)
        then blend_px (alpha (px msk (x - fst xy) (y - snd xy)))
               (px dst x y) (px src (x - fst xy) (y - snd xy))
        else px dst x y)\<rparr>"

subsection \<open>Bounding box and crop\<close>

definition has_data :: "bool \<Rightarrow> rgba \<Rightarrow> bool" where
  \<comment> \<open>the test \<^verbatim>\<open>pixel & mask\<close> of \<^verbatim>\<open>ImagingGetBBox\<close>\<close>
  "has_data alpha_only p = (if alpha_only then alpha p \<noteq> 0 else p \<noteq> (0, 0, 0, 0))"

definition getbbox :: "pil \<Rightarrow> rgba image \<Rightarrow> box option" where
  \<comment> \<open>\<^verbatim>\<open>img.getbbox()\<close>: the first and last column and row that hold data, the upper
      bounds exclusive; \<^verbatim>\<open>None\<close> when no pixel holds data.\<close>
  "getbbox L img =
     (let cols = filter (\<lambda>x. \<exists>y \<in> set [0 .. height img - 1].
                               has_data (bbox_alpha_only L) (px img x y)) [0 .. width img - 1];
          rows = filter (\<lambda>y. \<exists>x \<in> set [0 .. width img - 1].
                               has_data (bbox_alpha_only L) (px img x y)) [0 .. height img - 1]
      in if rows = [] then None
         else Some (hd cols, hd rows, last cols + 1, last rows + 1))"

definition crop :: "rgba image \<Rightarrow> box \<Rightarrow> rgba image" where
  \<comment> \<open>\<^verbatim>\<open>img.crop((x0, y0, x1, y1))\<close>; what lies outside the image is transparent black.\<close>
  "crop img b =
     (case b of (x0, y0, x1, y1) \<Rightarrow>
        \<lparr>width = x1 - x0, height = y1 - y0,
         px = (\<lambda>x y. if in_bounds img (x + x0) (y + y0) then px img (x + x0) (y + y0)
                      else transparent)\<rparr>)"

subsection \<open>Thumbnails\<close>

definition thumbnail :: "pil \<Rightarrow> rgba image \<Rightarrow> int \<times> int \<Rightarrow> rgba image" where
  \<comment> \<open>\<^verbatim>\<open>img.thumbnail(size, Image.LANCZOS)\<close>, which changes the image in place: the state
      of the image afterwards. An image that fits the requested size is left as it is;
      otherwise the library computes the new size and, when that differs from the
      current one, resamples.\<close>
  "thumbnail L img sz =
     (if fst sz \<ge> width img \<and> snd sz \<ge> height img then img
      else
        let final_size = thumbnail_size L (size_of img) sz in
        if size_of img \<noteq> final_size
        then \<lparr>width = fst final_size, height = snd final_size, px = lanczos L img final_size\<rparr>
        else img)"

section \<open>Image objects\<close>

text \<open>
  Pillow images are mutable objects and the script both mutates them in place
  (\<^verbatim>\<open>putalpha\<close>, \<^verbatim>\<open>paste\<close>, \<^verbatim>\<open>thumbnail\<close>, drawing) and passes one object under several
  names. The heap maps object references to the current state of each RGBA image.
\<close>

type_synonym ref = nat

record heap =
  cells :: "ref \<Rightarrow> rgba image"
  nxt :: ref

definition empty_heap :: heap where
  "empty_heap = \<lparr>cells = (\<lambda>r. new_image (0, 0) transparent), nxt = 0\<rparr>"

definition alloc :: "rgba image \<Rightarrow> heap \<Rightarrow> ref \<times> heap" where
  "alloc img h = (nxt h, h\<lparr>cells := (cells h)(nxt h := img), nxt := Suc (nxt h)\<rparr>)"

definition mutate :: "ref \<Rightarrow> (rgba image \<Rightarrow> rgba image) \<Rightarrow> heap \<Rightarrow> heap" where
  "mutate r f h = h\<lparr>cells := (cells h)(r := f (cells h r))\<rparr>"

definition deref :: "heap \<Rightarrow> ref \<Rightarrow> rgba image" where
  "deref h r = cells h r"


section \<open>The script\<close>

definition add_rounded_corners :: "pil \<Rightarrow> ref \<Rightarrow> int \<Rightarrow> heap \<Rightarrow> ref \<times> heap" where
  \<comment> \<open>The mask is local to the function; the image passed in is changed in place and the
      same object is returned.\<close>
  "add_rounded_corners L img radius h =
     (let msk = new_image (size_of (deref h img)) (0 :: byte);
          msk = rounded_rectangle L msk
                  (0, 0, fst (size_of (deref h img)), snd (size_of (deref h img))) radius 255;
          h = mutate img (\<lambda>i. putalpha i msk) h
      in (img, h))"

text \<open>The local variables of \<^verbatim>\<open>combine\<close> that hold image objects, as they are bound when
  the result is saved. \<open>composited_obj\<close> is the object created at line 47, which
  \<^verbatim>\<open>canvas\<close> names until line 63; \<open>canvas_obj\<close> is the object that \<^verbatim>\<open>canvas\<close> names at
  line 72.\<close>

record locals =
  a_rounded_obj :: ref
  frame_obj :: ref
  logo_scaled_obj :: ref
  composited_obj :: ref
  bbox_val :: "box option"
  canvas_obj :: ref

definition build_frame :: "pil \<Rightarrow> ref \<Rightarrow> heap \<Rightarrow> ref \<times> ref \<times> heap" where
  \<comment> \<open>Lines 15 to 33: the rounded frame with the screenshot pasted on it. Returns the
      objects named \<^verbatim>\<open>frame\<close> and \<^verbatim>\<open>a_rounded\<close>.\<close>
  "build_frame L a h =
     (let bg_color = (20, 20, 20, 255);
          padding_x = 40;
          padding_top = 40;
          padding_bottom = 40;
          frame_size = (fst (size_of (deref h a)) + padding_x * 2,
                        snd (size_of (deref h a)) + padding_top + padding_bottom);
          (frame, h) = alloc (new_image frame_size transparent) h;
          frame_radius = 60;
          h = mutate frame (\<lambda>i. rounded_rectangle L i
                (0, 0, fst frame_size, snd frame_size) frame_radius bg_color) h;
          (a_rounded, h) = add_rounded_corners L a 10 h;
          h = mutate frame (\<lambda>i. paste i (deref h a_rounded) (padding_x, padding_top)
                (deref h a_rounded)) h
      in (frame, a_rounded, h))"

definition scale_logo :: "pil \<Rightarrow> ref \<Rightarrow> heap \<Rightarrow> ref \<times> heap" where
  \<comment> \<open>Lines 35 to 37: \<^verbatim>\<open>logo.copy()\<close> is a new object, and \<^verbatim>\<open>thumbnail\<close> changes that
      object.\<close>
  "scale_logo L logo h =
     (let (logo_scaled, h) = alloc (deref h logo) h;
          h = mutate logo_scaled (\<lambda>i. thumbnail L i (650, 650)) h
      in (logo_scaled, h))"

definition build_canvas :: "ref \<Rightarrow> ref \<Rightarrow> heap \<Rightarrow> ref \<times> heap" where
  \<comment> \<open>Lines 39 to 58: the canvas with the frame and then the logo pasted on it.\<close>
  "build_canvas frame logo_scaled h =
     (let canvas_padding = 200;
          logo_overlap_x = fst (size_of (deref h logo_scaled)) div 2;
          logo_overlap_y = snd (size_of (deref h logo_scaled)) div 2;
          total_width = fst (size_of (deref h frame)) + logo_overlap_x + (canvas_padding * 2);
          total_height = snd (size_of (deref h frame)) + logo_overlap_y + (canvas_padding * 2);
          (canvas, h) = alloc (new_image (total_width, total_height) transparent) h;
          window_x = canvas_padding;
          window_y = canvas_padding + logo_overlap_y;
          h = mutate canvas (\<lambda>i. paste i (deref h frame) (window_x, window_y)
                (deref h frame)) h;
          logo_x = window_x + fst (size_of (deref h frame)) - logo_overlap_x;
          logo_y = window_y - logo_overlap_y;
          h = mutate canvas (\<lambda>i. paste i (deref h logo_scaled) (logo_x, logo_y)
                (deref h logo_scaled)) h
      in (canvas, h))"

definition crop_to_content :: "pil \<Rightarrow> ref \<Rightarrow> heap \<Rightarrow> box option \<times> ref \<times> heap" where
  \<comment> \<open>Lines 60 to 68. Returns \<^verbatim>\<open>bbox\<close> and the object that \<^verbatim>\<open>canvas\<close> names afterwards:
      the padded crop, or the canvas passed in when \<^verbatim>\<open>bbox\<close> is \<^verbatim>\<open>None\<close>.\<close>
  "crop_to_content L canvas h =
     (let bbox = getbbox L (deref h canvas)
      in case bbox of
           None \<Rightarrow> (bbox, canvas, h)
         | Some b \<Rightarrow>
             let (canvas, h) = alloc (crop (deref h canvas) b) h;
                 final_padding = 100;
                 new_size = (fst (size_of (deref h canvas)) + final_padding * 2,
                             snd (size_of (deref h canvas)) + final_padding * 2);
                 (final_canvas, h) = alloc (new_image new_size transparent) h;
                 h = mutate final_canvas (\<lambda>i. paste i (deref h canvas)
                       (final_padding, final_padding) (deref h canvas)) h
             in (bbox, final_canvas, h))"

definition compose :: "pil \<Rightarrow> ref \<Rightarrow> ref \<Rightarrow> heap \<Rightarrow> locals \<times> heap" where
  \<comment> \<open>Lines 15 to 68 of \<^verbatim>\<open>combine\<close>, for the two loaded images \<open>a\<close> and \<open>logo\<close>.\<close>
  "compose L a logo h =
     (let (frame, a_rounded, h) = build_frame L a h;
          (logo_scaled, h) = scale_logo L logo h;
          (composited, h) = build_canvas frame logo_scaled h;
          (bbox, canvas, h) = crop_to_content L composited h
      in (\<lparr>a_rounded_obj = a_rounded, frame_obj = frame, logo_scaled_obj = logo_scaled,
           composited_obj = composited, bbox_val = bbox, canvas_obj = canvas\<rparr>, h))"

subsection \<open>Files and the process\<close>

text \<open>
  A file either decodes to an image (held here as the RGBA image that
  \<^verbatim>\<open>Image.open(path).convert("RGBA")\<close> yields) or makes that expression raise: a file that
  cannot be read, that is not an image, or that is truncated. Writing a file can fail as
  well, either before the file is touched (a missing directory, a path that cannot be
  written) or after it was created, which leaves no file or a truncated one. The world
  of a run is the files, which writes fail and how, and what has been printed.
\<close>

datatype error =
  FileNotFoundError string
| PermissionError string
| UnidentifiedImageError string
| OSError string

datatype disk_file = ImageFile "rgba image" | BrokenFile error

datatype damage = Untouched | Removed | Truncated error

record world =
  files :: "string \<Rightarrow> disk_file option"
  save_failure :: "string \<Rightarrow> rgba image \<Rightarrow> (error \<times> damage) option"
  stdout :: "string list"

definition Image_open :: "world \<Rightarrow> string \<Rightarrow> heap \<Rightarrow> error + ref \<times> heap" where
  \<comment> \<open>\<^verbatim>\<open>Image.open(path).convert("RGBA")\<close>\<close>
  "Image_open w path h =
     (case files w path of
        None \<Rightarrow> Inl (FileNotFoundError path)
      | Some (BrokenFile e) \<Rightarrow> Inl e
      | Some (ImageFile img) \<Rightarrow> Inr (alloc img h))"

definition after_failure :: "damage \<Rightarrow> string \<Rightarrow> (string \<Rightarrow> disk_file option) \<Rightarrow> string \<Rightarrow> disk_file option" where
  "after_failure d path fs =
     (case d of
        Untouched \<Rightarrow> fs
      | Removed \<Rightarrow> fs(path := None)
      | Truncated e \<Rightarrow> fs(path \<mapsto> BrokenFile e))"

definition save :: "rgba image \<Rightarrow> string \<Rightarrow> world \<Rightarrow> (error + unit) \<times> world" where
  \<comment> \<open>\<^verbatim>\<open>img.save(path, "PNG")\<close>; PNG stores RGBA pixels without loss.\<close>
  "save img path w =
     (case save_failure w path img of
        None \<Rightarrow> (Inr (), w\<lparr>files := (files w)(path \<mapsto> ImageFile img)\<rparr>)
      | Some (e, d) \<Rightarrow> (Inl e, w\<lparr>files := after_failure d path (files w)\<rparr>))"

definition print :: "string \<Rightarrow> world \<Rightarrow> world" where
  "print line w = w\<lparr>stdout := stdout w @ [line]\<rparr>"

definition output_path :: string where
  "output_path = ''/Users/filipstrand/Desktop/combined_transparent.png''"

definition combine :: "pil \<Rightarrow> world \<Rightarrow> (error + unit) \<times> world" where
  \<comment> \<open>No statement of \<^verbatim>\<open>combine\<close> catches an exception: the first failure ends the run.\<close>
  "combine L w =
     (case Image_open w ''media/raw_screenshot.png'' empty_heap of
        Inl e \<Rightarrow> (Inl e, w)
      | Inr (a, h) \<Rightarrow>
     (case Image_open w ''media/logo.png'' h of
        Inl e \<Rightarrow> (Inl e, w)
      | Inr (logo, h) \<Rightarrow>
     (let (vars, h) = compose L a logo h in
      case save (deref h (canvas_obj vars)) output_path w of
        (Inl e, w) \<Rightarrow> (Inl e, w)
      | (Inr u, w) \<Rightarrow> (Inr (), print (''Saved combined image to '' @ output_path) w))))"


subsection \<open>The objects of a run\<close>

text \<open>
  \<open>final_state L a logo\<close> is the local variables and the heap at line 70 when the two
  files decode to \<open>a\<close> and \<open>logo\<close>, and \<open>obj\<close> reads the state of the object that one of
  the variables names.
\<close>

definition final_state :: "pil \<Rightarrow> rgba image \<Rightarrow> rgba image \<Rightarrow> locals \<times> heap" where
  "final_state L a_img logo_img =
     (case alloc a_img empty_heap of (a, h) \<Rightarrow>
      case alloc logo_img h of (logo, h) \<Rightarrow> compose L a logo h)"

definition obj :: "locals \<times> heap \<Rightarrow> (locals \<Rightarrow> ref) \<Rightarrow> rgba image" where
  "obj s v = deref (snd s) (v (fst s))"

definition logo_obj :: "locals \<times> heap \<Rightarrow> rgba image" where
  \<comment> \<open>the object that \<^verbatim>\<open>logo\<close> names: the second image loaded\<close>
  "logo_obj s = deref (snd s) (Suc 0)"

subsection \<open>The images as values\<close>

text \<open>The states that the objects of the script go through, written as functions of the
  images they are computed from. The lemmas below show that the heap holds these.\<close>

definition rounded :: "pil \<Rightarrow> rgba image \<Rightarrow> int \<Rightarrow> rgba image" where
  "rounded L img radius =
     putalpha img (rounded_rectangle L (new_image (size_of img) 0)
       (0, 0, width img, height img) radius 255)"

definition drawn_frame :: "pil \<Rightarrow> int \<times> int \<Rightarrow> rgba image" where
  "drawn_frame L sz =
     rounded_rectangle L (new_image sz transparent) (0, 0, fst sz, snd sz) 60 (20, 20, 20, 255)"

definition frame_image :: "pil \<Rightarrow> rgba image \<Rightarrow> rgba image" where
  "frame_image L a =
     paste (drawn_frame L (width a + 80, height a + 80)) (rounded L a 10) (40, 40)
       (rounded L a 10)"

definition canvas_image :: "rgba image \<Rightarrow> rgba image \<Rightarrow> rgba image" where
  "canvas_image F S =
     paste (paste (new_image (width F + width S div 2 + 400, height F + height S div 2 + 400)
                     transparent)
              F (200, 200 + height S div 2) F)
       S (200 + width F - width S div 2, 200) S"

definition padded :: "rgba image \<Rightarrow> rgba image" where
  "padded C = paste (new_image (width C + 200, height C + 200) transparent) C (100, 100) C"

subsection \<open>Well-formed inputs and a sample run\<close>

definition valid :: "rgba image \<Rightarrow> bool" where
  \<comment> \<open>A decoded image has at least one pixel.\<close>
  "valid img \<longleftrightarrow> 0 < width img \<and> 0 < height img"

text \<open>A small run used to exercise the results below: a library whose rounded rectangle
  is the full rectangle, a 2 by 1 screenshot and a half-transparent 4 by 2 logo.\<close>

definition example_pil :: pil where
  "example_pil =
     \<lparr>rounded_shape = (\<lambda>b r x y. case b of (x0, y0, x1, y1) \<Rightarrow>
                          x0 \<le> x \<and> x \<le> x1 \<and> y0 \<le> y \<and> y \<le> y1),
      thumbnail_size = (\<lambda>wh sz. sz),
      lanczos = (\<lambda>img sz x y. (255, 255, 255, 255)),
      bbox_alpha_only = True\<rparr>"

definition example_screenshot :: "rgba image" where
  "example_screenshot = new_image (2, 1) (10, 20, 30, 255)"

definition example_logo :: "rgba image" where
  "example_logo = new_image (4, 2) (200, 100, 50, 128)"

definition example_world :: world where
  "example_world =
     \<lparr>files = [''media/raw_screenshot.png'' \<mapsto> ImageFile example_screenshot,
               ''media/logo.png'' \<mapsto> ImageFile example_logo],
      save_failure = (\<lambda>p img. None),
      stdout = []\<rparr>"

definition example_run :: "locals \<times> heap" where
  "example_run = final_state example_pil example_screenshot example_logo"

text \<open>Variants of the sample world: one with another file and earlier output, one whose
  logo file is truncated, one whose output directory does not exist.\<close>

definition example_world_other :: world where
  "example_world_other =
     example_world\<lparr>files := (files example_world)(''notes.txt'' \<mapsto> BrokenFile (UnidentifiedImageError ''notes.txt'')),
                   stdout := [''earlier output'']\<rparr>"



section \<open>The heap of a run\<close>

lemmas heap_defs = alloc_def mutate_def deref_def

lemma add_rounded_corners_eq:
  "add_rounded_corners L r radius h =
     (r, h\<lparr>cells := (cells h)(r := rounded L (cells h r) radius)\<rparr>)"
  by (simp add: add_rounded_corners_def heap_defs rounded_def size_of_def Let_def)

lemma build_frame_eq:
  "a \<noteq> nxt h \<Longrightarrow> build_frame L a h =
     (nxt h, a, h\<lparr>cells := (cells h)(nxt h := frame_image L (cells h a),
                                         a := rounded L (cells h a) 10),
                  nxt := Suc (nxt h)\<rparr>)"
  apply (simp add: build_frame_def add_rounded_corners_eq heap_defs Let_def size_of_def
      frame_image_def drawn_frame_def)
  apply (simp add: fun_upd_twist add.commute)
  done

lemma scale_logo_eq:
  "scale_logo L logo h =
     (nxt h, h\<lparr>cells := (cells h)(nxt h := thumbnail L (cells h logo) (650, 650)),
               nxt := Suc (nxt h)\<rparr>)"
  by (simp add: scale_logo_def heap_defs Let_def)

lemma build_canvas_eq:
  "f \<noteq> nxt h \<Longrightarrow> s \<noteq> nxt h \<Longrightarrow> build_canvas f s h =
     (nxt h, h\<lparr>cells := (cells h)(nxt h := canvas_image (cells h f) (cells h s)),
               nxt := Suc (nxt h)\<rparr>)"
  by (simp add: build_canvas_def heap_defs Let_def size_of_def canvas_image_def)

lemma crop_to_content_eq:
  "crop_to_content L c h =
     (case getbbox L (cells h c) of
        None \<Rightarrow> (None, c, h)
      | Some b \<Rightarrow> (Some b, Suc (nxt h),
          h\<lparr>cells := (cells h)(nxt h := crop (cells h c) b,
                                 Suc (nxt h) := padded (crop (cells h c) b)),
            nxt := Suc (Suc (nxt h))\<rparr>))"
  by (simp add: crop_to_content_def heap_defs Let_def size_of_def padded_def
      split: option.split)

lemma final_state_eq:
  "final_state L a l =
     (let F = frame_image L a; S = thumbnail L l (650, 650); C = canvas_image F S;
          base = (\<lambda>r. new_image (0, 0) transparent)
                   (0 := rounded L a 10, Suc 0 := l, 2 := F, 3 := S, 4 := C)
      in case getbbox L C of
           None \<Rightarrow>
             (\<lparr>a_rounded_obj = 0, frame_obj = 2, logo_scaled_obj = 3, composited_obj = 4,
               bbox_val = None, canvas_obj = 4\<rparr>, \<lparr>cells = base, nxt = 5\<rparr>)
         | Some b \<Rightarrow>
             (\<lparr>a_rounded_obj = 0, frame_obj = 2, logo_scaled_obj = 3, composited_obj = 4,
               bbox_val = Some b, canvas_obj = 6\<rparr>,
              \<lparr>cells = base(5 := crop C b, 6 := padded (crop C b)), nxt = 7\<rparr>))"
  apply (simp add: final_state_def compose_def alloc_def empty_heap_def build_frame_eq
      scale_logo_eq build_canvas_eq crop_to_content_eq Let_def split: option.split)
  apply (auto simp: fun_eq_iff numeral_eq_Suc)
  done

lemma a_rounded_is: "obj (final_state L a l) a_rounded_obj = rounded L a 10"
  by (simp add: final_state_eq obj_def deref_def Let_def split: option.split)

lemma frame_is: "obj (final_state L a l) frame_obj = frame_image L a"
  by (simp add: final_state_eq obj_def deref_def Let_def split: option.split)

lemma logo_scaled_is: "obj (final_state L a l) logo_scaled_obj = thumbnail L l (650, 650)"
  by (simp add: final_state_eq obj_def deref_def Let_def split: option.split)

lemma composited_is:
  "obj (final_state L a l) composited_obj =
     canvas_image (frame_image L a) (thumbnail L l (650, 650))"
  by (simp add: final_state_eq obj_def deref_def Let_def split: option.split)

lemma bbox_is:
  "bbox_val (fst (final_state L a l)) =
     getbbox L (canvas_image (frame_image L a) (thumbnail L l (650, 650)))"
  by (simp add: final_state_eq Let_def split: option.split)

lemma canvas_is:
  "obj (final_state L a l) canvas_obj =
     (case getbbox L (canvas_image (frame_image L a) (thumbnail L l (650, 650))) of
        None \<Rightarrow> canvas_image (frame_image L a) (thumbnail L l (650, 650))
      | Some b \<Rightarrow> padded (crop (canvas_image (frame_image L a) (thumbnail L l (650, 650))) b))"
  by (simp add: final_state_eq obj_def deref_def Let_def split: option.split)

lemma logo_is: "logo_obj (final_state L a l) = l"
  by (simp add: final_state_eq logo_obj_def deref_def Let_def split: option.split)


section \<open>Sizes and pixels of the images\<close>

lemma paste_simps:
  "width (paste d s xy m) = width d" "height (paste d s xy m) = height d"
  "px (paste d s xy m) x y =
     (if in_bounds d x y \<and> in_bounds s (x - fst xy) (y - snd xy)
      then blend_px (alpha (px m (x - fst xy) (y - snd xy))) (px d x y)
             (px s (x - fst xy) (y - snd xy))
      else px d x y)"
  by (simp_all add: paste_def)

lemma rounded_simps:
  "width (rounded L a r) = width a" "height (rounded L a r) = height a"
  by (simp_all add: rounded_def putalpha_def)

lemma drawn_frame_simps:
  "width (drawn_frame L sz) = fst sz" "height (drawn_frame L sz) = snd sz"
  by (simp_all add: drawn_frame_def rounded_rectangle_def new_image_def)

lemma frame_image_simps:
  "width (frame_image L a) = width a + 80" "height (frame_image L a) = height a + 80"
  by (simp_all add: frame_image_def paste_simps drawn_frame_simps)

section \<open>Blending arithmetic\<close>

lemma DIV255_eq:
  assumes "255 * s \<le> a + 127" "a \<le> 255 * s + 127" "s \<le> 255"
  shows "DIV255 a = s"
proof -
  define q where "q = (a + 128) div 256"
  have q1: "256 * q \<le> a + 128" and q2: "a + 128 < 256 * q + 256"
    unfolding q_def by simp_all
  have "256 * s \<le> q + (a + 128)" using q1 q2 assms by linarith
  moreover have "q + (a + 128) < 256 * s + 256" using q1 q2 assms by linarith
  ultimately have "(q + (a + 128)) div 256 = s"
    by (intro div_nat_eqI) simp_all
  then show ?thesis by (simp add: DIV255_def Let_def q_def)
qed

lemma DIV255_pos: "128 \<le> a \<Longrightarrow> 0 < DIV255 a"
  by (simp add: DIV255_def Let_def div_greater_zero_iff)

lemma DIV255_le: 
  assumes "a \<le> 255 * 255" shows "DIV255 a \<le> 255"
proof -
  define q where "q = (a + 128) div 256"
  have q1: "256 * q \<le> a + 128" unfolding q_def by simp
  have "(q + (a + 128)) div 256 < 256"
    by (subst div_less_iff_less_mult) (use q1 assms in linarith)+
  then show ?thesis by (simp add: DIV255_def Let_def q_def)
qed

lemma unat_byte_le: "unat (b :: byte) \<le> 255"
  using unsigned_less [of b, where ?'a = nat] by simp

lemma BLEND_0: "BLEND 0 d s = d"
proof -
  have "DIV255 (unat d * 255) = unat d"
    by (rule DIV255_eq) (use unat_byte_le [of d] in simp_all)
  then show ?thesis by (simp add: BLEND_def)
qed

lemma BLEND_255: "BLEND 255 d s = s"
proof -
  have "DIV255 (unat s * 255) = unat s"
    by (rule DIV255_eq) (use unat_byte_le [of s] in simp_all)
  then show ?thesis by (simp add: BLEND_def)
qed

lemma BLEND_over_opaque: "BLEND m 255 m \<noteq> 0"
proof -
  define v where "v = 255 * (255 - unat m) + unat m * unat m"
  have m: "unat m \<le> 255" by (rule unat_byte_le)
  have "unat m * unat m \<le> 255 * unat m" using m by simp
  then have up: "v \<le> 255 * 255" using m unfolding v_def by linarith
  have lo: "128 \<le> v"
  proof (cases "unat m = 255")
    case True then show ?thesis by (simp add: v_def)
  next
    case False
    then have "255 - unat m \<ge> 1" using m by linarith
    then show ?thesis unfolding v_def by linarith
  qed
  have "0 < DIV255 v" "DIV255 v < 256"
    using DIV255_pos [OF lo] DIV255_le [OF up] by simp_all
  then have "(of_nat (DIV255 v) :: byte) \<noteq> 0"
    by (auto simp: word_of_nat_eq_0_iff dest: dvd_imp_le)
  then show ?thesis by (simp add: BLEND_def v_def)
qed

lemma blend_px_0: "blend_px 0 d s = d"
  by (cases d; cases s) (simp add: blend_px_def BLEND_0)

lemma blend_px_255: "blend_px 255 d s = s"
  by (cases d; cases s) (simp add: blend_px_def BLEND_255)

lemma alpha_blend_over_opaque: "alpha d = 255 \<Longrightarrow> alpha (blend_px (alpha s) d s) \<noteq> 0"
  by (cases d; cases s) (simp add: blend_px_def alpha_def BLEND_over_opaque)

lemma getbbox_Some:
  assumes "in_bounds img x y" "has_data (bbox_alpha_only L) (px img x y)"
  shows "getbbox L img \<noteq> None"
proof -
  have "y \<in> set [0 .. height img - 1]" "x \<in> set [0 .. width img - 1]"
    using assms(1) by (auto simp: in_bounds_def)
  then have "filter (\<lambda>y. \<exists>x \<in> set [0 .. width img - 1].
      has_data (bbox_alpha_only L) (px img x y)) [0 .. height img - 1] \<noteq> []"
    using assms(2) unfolding filter_empty_conv by blast
  then show ?thesis by (simp add: getbbox_def Let_def)
qed

lemma getbbox_bounds:
  assumes "getbbox L img = Some (x0, y0, x1, y1)"
  shows "0 \<le> x0 \<and> x1 \<le> width img \<and> 0 \<le> y0 \<and> y1 \<le> height img"
proof -
  define cols where "cols = filter (\<lambda>x. \<exists>y \<in> set [0 .. height img - 1].
      has_data (bbox_alpha_only L) (px img x y)) [0 .. width img - 1]"
  define rows where "rows = filter (\<lambda>y. \<exists>x \<in> set [0 .. width img - 1].
      has_data (bbox_alpha_only L) (px img x y)) [0 .. height img - 1]"
  from assms have r: "rows \<noteq> []" and eq: "x0 = hd cols" "y0 = hd rows" "x1 = last cols + 1" "y1 = last rows + 1"
    by (auto simp: getbbox_def Let_def cols_def rows_def split: if_splits)
  from r obtain y where "y \<in> set rows" by (cases rows) auto
  then obtain x where "x \<in> set [0 .. width img - 1]" "y \<in> set [0 .. height img - 1]"
      "has_data (bbox_alpha_only L) (px img x y)"
    by (auto simp: rows_def)
  then have "x \<in> set cols" by (auto simp: cols_def)
  then have c: "cols \<noteq> []" by auto
  have "hd cols \<in> set cols" "last cols \<in> set cols" "hd rows \<in> set rows" "last rows \<in> set rows"
    using c r by simp_all
  then show ?thesis unfolding eq by (auto simp: cols_def rows_def)
qed

section \<open>Thumbnails\<close>

lemma thumbnail_fits:
  "width l \<le> 650 \<Longrightarrow> height l \<le> 650 \<Longrightarrow> thumbnail L l (650, 650) = l"
  by (simp add: thumbnail_def)

section \<open>The canvas holds data\<close>

lemma alpha_rounded:
  "alpha (px (rounded L a r) x y) = 0 \<or> alpha (px (rounded L a r) x y) = 255"
  by (cases "px a x y")
     (simp add: rounded_def putalpha_def rounded_rectangle_def new_image_def alpha_def)

lemma frame_opaque:
  assumes "rounded_shape L (0, 0, width a + 80, height a + 80) 60 cx cy"
    and "0 \<le> cx" "cx < width a + 80" "0 \<le> cy" "cy < height a + 80"
  shows "alpha (px (frame_image L a) cx cy) = 255"
proof -
  have d: "px (drawn_frame L (width a + 80, height a + 80)) cx cy = (20, 20, 20, 255)"
    using assms by (simp add: drawn_frame_def rounded_rectangle_def new_image_def in_bounds_def)
  show ?thesis
    using alpha_rounded [of L a 10 "cx - 40" "cy - 40"]
    by (auto simp: frame_image_def paste_simps d blend_px_0 blend_px_255 alpha_def)
qed

lemma has_data_alpha: "alpha p \<noteq> 0 \<Longrightarrow> has_data b p"
  by (cases p) (auto simp: has_data_def alpha_def)

lemma canvas_image_simps:
  "width (canvas_image F S) = width F + width S div 2 + 400"
  "height (canvas_image F S) = height F + height S div 2 + 400"
  by (simp_all add: canvas_image_def paste_simps new_image_def)

lemma canvas_has_data:
  assumes "alpha (px F cx cy) = 255" "in_bounds F cx cy" "0 \<le> width S" "0 \<le> height S"
  shows "in_bounds (canvas_image F S) (200 + cx) (200 + height S div 2 + cy) \<and>
         alpha (px (canvas_image F S) (200 + cx) (200 + height S div 2 + cy)) \<noteq> 0"
proof -
  have w: "0 \<le> width S div 2" "0 \<le> height S div 2"
    using assms(3,4) by (simp_all add: pos_imp_zdiv_nonneg_iff)
  have ib: "in_bounds (canvas_image F S) (200 + cx) (200 + height S div 2 + cy)"
    using assms(2) w unfolding in_bounds_def canvas_image_simps by linarith
  define C1 where "C1 = paste (new_image (width F + width S div 2 + 400,
      height F + height S div 2 + 400) transparent) F (200, 200 + height S div 2) F"
  have "px C1 (200 + cx) (200 + height S div 2 + cy) = px F cx cy"
  proof -
    have "in_bounds (new_image (width F + width S div 2 + 400,
        height F + height S div 2 + 400) transparent :: rgba image)
        (200 + cx) (200 + height S div 2 + cy)"
      using assms(2) w unfolding in_bounds_def new_image_def by simp linarith
    then show ?thesis
      using assms(1,2) by (simp add: C1_def paste_simps blend_px_255)
  qed
  then have a1: "alpha (px C1 (200 + cx) (200 + height S div 2 + cy)) = 255"
    using assms(1) by simp
  have "alpha (px (paste C1 S (200 + width F - width S div 2, 200) S)
      (200 + cx) (200 + height S div 2 + cy)) \<noteq> 0"
    using a1 alpha_blend_over_opaque [OF a1] by (simp add: paste_simps)
  then show ?thesis using ib by (simp add: canvas_image_def C1_def)
qed

section \<open>The frame around the screenshot\<close>

lemmas example_defs = example_pil_def example_screenshot_def example_logo_def new_image_def

text \<open>
  C4: for a screenshot of size \<open>(w, h)\<close> the frame has size \<open>(w + 80, h + 80)\<close>, and the
  screenshot (with its corners rounded) is pasted at offset \<open>(40, 40)\<close>: the pixel
  \<open>(x, y)\<close> of the screenshot is blended onto the pixel \<open>(40 + x, 40 + y)\<close> of the drawn
  frame, which leaves 40 pixels of frame on each of the four sides, and every other pixel
  of the frame is as it was drawn.
\<close>

theorem frame_geometry:
  "width (obj (final_state L a l) frame_obj) = width a + 80 \<and>
   height (obj (final_state L a l) frame_obj) = height a + 80 \<and>
   size_of (obj (final_state L a l) a_rounded_obj) = size_of a \<and>
   (\<forall>x y. in_bounds a x y \<longrightarrow>
      px (obj (final_state L a l) frame_obj) (40 + x) (40 + y) =
        blend_px (alpha (px (obj (final_state L a l) a_rounded_obj) x y))
          (px (drawn_frame L (width a + 80, height a + 80)) (40 + x) (40 + y))
          (px (obj (final_state L a l) a_rounded_obj) x y)) \<and>
   (\<forall>x y. \<not> in_bounds a (x - 40) (y - 40) \<longrightarrow>
      px (obj (final_state L a l) frame_obj) x y =
        px (drawn_frame L (width a + 80, height a + 80)) x y)"
  by (simp add: frame_is a_rounded_is frame_image_simps frame_image_def paste_simps
      rounded_simps drawn_frame_simps in_bounds_def size_of_def)

theorem frame_geometry_witness:
  "in_bounds example_screenshot 1 0 \<and>
   size_of (obj (final_state example_pil example_screenshot example_logo) frame_obj) = (82, 81) \<and>
   px (obj (final_state example_pil example_screenshot example_logo) frame_obj) 41 40
     = (10, 20, 30, 255) \<and>
   \<not> in_bounds example_screenshot (42 - 40) (40 - 40) \<and>
   px (obj (final_state example_pil example_screenshot example_logo) frame_obj) 42 40
     = (20, 20, 20, 255)"
proof -
  note t = frame_geometry [of example_pil example_screenshot example_logo]
  have ib: "in_bounds example_screenshot 1 0" "\<not> in_bounds example_screenshot (42 - 40) (40 - 40)"
    by (simp_all add: in_bounds_def example_defs)
  have p: "px (obj (final_state example_pil example_screenshot example_logo) a_rounded_obj) 1 0
      = (10, 20, 30, 255)"
    by (simp add: a_rounded_is rounded_def putalpha_def rounded_rectangle_def in_bounds_def
        size_of_def example_defs)
  have d: "px (drawn_frame example_pil (width example_screenshot + 80, height example_screenshot + 80)) 42 40
      = (20, 20, 20, 255)"
    by (simp add: drawn_frame_def rounded_rectangle_def in_bounds_def example_defs)
  from t ib(1) have "px (obj (final_state example_pil example_screenshot example_logo) frame_obj)
      (40 + 1) (40 + 0) =
      blend_px (alpha (px (obj (final_state example_pil example_screenshot example_logo) a_rounded_obj) 1 0))
        (px (drawn_frame example_pil (width example_screenshot + 80, height example_screenshot + 80)) (40 + 1) (40 + 0))
        (px (obj (final_state example_pil example_screenshot example_logo) a_rounded_obj) 1 0)"
    by blast
  then have "px (obj (final_state example_pil example_screenshot example_logo) frame_obj) 41 40
      = (10, 20, 30, 255)"
    by (simp add: p blend_px_255 alpha_def)
  moreover from t ib(2) have "px (obj (final_state example_pil example_screenshot example_logo) frame_obj)
      42 40 = px (drawn_frame example_pil (width example_screenshot + 80, height example_screenshot + 80)) 42 40"
    by blast
  moreover from t have "size_of (obj (final_state example_pil example_screenshot example_logo) frame_obj) = (82, 81)"
    by (simp add: size_of_def example_defs)
  ultimately show ?thesis using ib d by simp
qed

section \<open>The canvas\<close>

lemma example_valid: "valid example_screenshot" "valid example_logo"
  by (simp_all add: valid_def example_defs)

lemma example_scaled: "obj example_run logo_scaled_obj = example_logo"
  by (simp add: example_run_def logo_scaled_is thumbnail_fits example_defs)

lemma example_frame_size:
  "width (obj example_run frame_obj) = 82" "height (obj example_run frame_obj) = 81"
  by (simp_all add: example_run_def frame_is frame_image_simps example_defs)

lemma example_frame_px:
  "\<not> in_bounds example_screenshot (x - 40) (y - 40) \<Longrightarrow> 0 \<le> x \<Longrightarrow> x < 82 \<Longrightarrow> 0 \<le> y \<Longrightarrow> y < 81 \<Longrightarrow>
     px (obj example_run frame_obj) x y = (20, 20, 20, 255)"
  by (auto simp: example_run_def frame_is frame_image_def paste_simps rounded_simps
      drawn_frame_def rounded_rectangle_def in_bounds_def example_defs)

lemma in_bounds_cong: "width a = width b \<Longrightarrow> height a = height b \<Longrightarrow> in_bounds a x y = in_bounds b x y"
  by (simp add: in_bounds_def)

lemma canvas_image_px:
  "px (canvas_image F S) x y =
     (let under = (if in_bounds (canvas_image F S) x y \<and>
                      in_bounds F (x - 200) (y - (200 + height S div 2))
                   then blend_px (alpha (px F (x - 200) (y - (200 + height S div 2))))
                          transparent (px F (x - 200) (y - (200 + height S div 2)))
                   else transparent)
      in if in_bounds (canvas_image F S) x y \<and>
            in_bounds S (x - (200 + width F - width S div 2)) (y - 200)
         then blend_px (alpha (px S (x - (200 + width F - width S div 2)) (y - 200)))
                under (px S (x - (200 + width F - width S div 2)) (y - 200))
         else under)"
proof -
  define N :: "rgba image" where "N = new_image (width F + width S div 2 + 400, height F + height S div 2 + 400) transparent"
  define C1 where "C1 = paste N F (200, 200 + height S div 2) F"
  have C: "canvas_image F S = paste C1 S (200 + width F - width S div 2, 200) S"
    by (simp add: canvas_image_def C1_def N_def)
  have b1: "in_bounds C1 x y = in_bounds (canvas_image F S) x y"
    by (rule in_bounds_cong) (simp_all add: C paste_simps)
  have b2: "in_bounds N x y = in_bounds (canvas_image F S) x y"
    by (rule in_bounds_cong) (simp_all add: C C1_def paste_simps)
  have n: "px N x y = transparent" by (simp add: N_def new_image_def)
  have u: "px C1 x y = (if in_bounds (canvas_image F S) x y \<and>
                      in_bounds F (x - 200) (y - (200 + height S div 2))
                   then blend_px (alpha (px F (x - 200) (y - (200 + height S div 2))))
                          transparent (px F (x - 200) (y - (200 + height S div 2)))
                   else transparent)"
    unfolding C1_def paste_simps(3) b2 n by simp
  have "px (paste C1 S (200 + width F - width S div 2, 200) S) x y =
      (if in_bounds (canvas_image F S) x y \<and>
            in_bounds S (x - (200 + width F - width S div 2)) (y - 200)
         then blend_px (alpha (px S (x - (200 + width F - width S div 2)) (y - 200)))
                (px C1 x y) (px S (x - (200 + width F - width S div 2)) (y - 200))
         else px C1 x y)"
    unfolding paste_simps(3) b1 by simp
  then show ?thesis
    unfolding Let_def u [symmetric] by (subst C) assumption
qed

text \<open>
C5: the canvas created before cropping has width
  \<open>frame width + logo_scaled width div 2 + 400\<close> and height
  \<open>frame height + logo_scaled height div 2 + 400\<close>, and the frame is pasted at
  \<open>(200, 200 + logo_scaled height div 2)\<close>. Every pixel \<open>(x, y)\<close> of the canvas is
  accounted for: once the frame is pasted the canvas holds, at \<open>(x, y)\<close>, the frame pixel
  \<open>(x - 200, y - (200 + logo_scaled height div 2))\<close> blended onto transparent if that is
  a pixel of the frame (and \<open>(x, y)\<close> one of the canvas), and transparent otherwise;
  the final canvas holds the logo pixel blended over that where the logo lies, and
  exactly that elsewhere.
\<close>

theorem canvas_geometry:
  "width (obj (final_state L a l) composited_obj) =
     width (obj (final_state L a l) frame_obj)
       + width (obj (final_state L a l) logo_scaled_obj) div 2 + 400 \<and>
   height (obj (final_state L a l) composited_obj) =
     height (obj (final_state L a l) frame_obj)
       + height (obj (final_state L a l) logo_scaled_obj) div 2 + 400 \<and>
   (\<forall>x y. px (obj (final_state L a l) composited_obj) x y =
     (let under =
        (if in_bounds (obj (final_state L a l) composited_obj) x y \<and>
            in_bounds (obj (final_state L a l) frame_obj) (x - 200)
              (y - (200 + height (obj (final_state L a l) logo_scaled_obj) div 2))
         then blend_px
                (alpha (px (obj (final_state L a l) frame_obj) (x - 200)
                   (y - (200 + height (obj (final_state L a l) logo_scaled_obj) div 2))))
                transparent
                (px (obj (final_state L a l) frame_obj) (x - 200)
                   (y - (200 + height (obj (final_state L a l) logo_scaled_obj) div 2)))
         else transparent)
      in if in_bounds (obj (final_state L a l) composited_obj) x y \<and>
            in_bounds (obj (final_state L a l) logo_scaled_obj)
              (x - (200 + width (obj (final_state L a l) frame_obj)
                      - width (obj (final_state L a l) logo_scaled_obj) div 2))
              (y - 200)
         then blend_px
                (alpha (px (obj (final_state L a l) logo_scaled_obj)
                   (x - (200 + width (obj (final_state L a l) frame_obj)
                           - width (obj (final_state L a l) logo_scaled_obj) div 2))
                   (y - 200)))
                under
                (px (obj (final_state L a l) logo_scaled_obj)
                   (x - (200 + width (obj (final_state L a l) frame_obj)
                           - width (obj (final_state L a l) logo_scaled_obj) div 2))
                   (y - 200))
         else under))"
  unfolding frame_is logo_scaled_is composited_is
  by (intro conjI allI canvas_image_px) (simp_all add: canvas_image_simps frame_image_simps)

theorem canvas_geometry_witness:
  "size_of (obj example_run composited_obj) = (484, 482) \<and>
   px (obj example_run composited_obj) 242 241 = (20, 20, 20, 255) \<and>
   px (obj example_run composited_obj) 0 0 = transparent"
proof -
  note t = canvas_geometry [of example_pil example_screenshot example_logo,
      folded example_run_def, unfolded example_scaled example_frame_size]
  have wh: "width example_logo = 4" "height example_logo = 2"
    by (simp_all add: example_defs)
  have f: "px (obj example_run frame_obj) 42 40 = (20, 20, 20, 255)"
    by (rule example_frame_px) (simp_all add: in_bounds_def example_defs)
  from t have sz: "width (obj example_run composited_obj) = 484"
    "height (obj example_run composited_obj) = 482"
    by (simp_all add: wh)
  from t have p: "px (obj example_run composited_obj) x y =
     (let under =
        (if in_bounds (obj example_run composited_obj) x y \<and>
            in_bounds (obj example_run frame_obj) (x - 200) (y - (200 + height example_logo div 2))
         then blend_px
                (alpha (px (obj example_run frame_obj) (x - 200)
                   (y - (200 + height example_logo div 2))))
                transparent
                (px (obj example_run frame_obj) (x - 200) (y - (200 + height example_logo div 2)))
         else transparent)
      in if in_bounds (obj example_run composited_obj) x y \<and>
            in_bounds example_logo (x - (200 + 82 - width example_logo div 2)) (y - 200)
         then blend_px
                (alpha (px example_logo (x - (200 + 82 - width example_logo div 2)) (y - 200)))
                under
                (px example_logo (x - (200 + 82 - width example_logo div 2)) (y - 200))
         else under)" for x y
    by blast
  have p1: "px (obj example_run composited_obj) 242 241 = (20, 20, 20, 255)"
    by (subst p) (simp add: in_bounds_def sz wh example_frame_size f alpha_def blend_px_255)
  have p2: "px (obj example_run composited_obj) 0 0 = transparent"
    by (subst p) (simp add: in_bounds_def sz wh example_frame_size)
  show ?thesis using sz p1 p2 by (simp add: size_of_def)
qed


section \<open>The logo on the canvas\<close>

lemma canvas_as_paste:
  "canvas_image F S =
     paste (paste (new_image (size_of (canvas_image F S)) transparent) F
              (200, 200 + height S div 2) F)
       S (200 + width F - width S div 2, 200) S"
  by (simp add: size_of_def canvas_image_simps) (simp add: canvas_image_def)

lemma canvas_px_logo:
  assumes "in_bounds S x y"
    and "in_bounds (canvas_image F S) (200 + width F - width S div 2 + x)
           (200 + height S div 2 - height S div 2 + y)"
  shows "px (canvas_image F S) (200 + width F - width S div 2 + x)
           (200 + height S div 2 - height S div 2 + y) =
         blend_px (alpha (px S x y))
           (px (paste (new_image (size_of (canvas_image F S)) transparent) F
                  (200, 200 + height S div 2) F)
              (200 + width F - width S div 2 + x)
              (200 + height S div 2 - height S div 2 + y))
           (px S x y)"
proof -
  define C1 where "C1 = paste (new_image (size_of (canvas_image F S)) transparent) F
      (200, 200 + height S div 2) F"
  have C: "canvas_image F S = paste C1 S (200 + width F - width S div 2, 200) S"
    unfolding C1_def by (rule canvas_as_paste)
  have ib: "in_bounds C1 (200 + width F - width S div 2 + x)
      (200 + height S div 2 - height S div 2 + y)"
    using assms(2) by (simp add: in_bounds_def C1_def paste_simps new_image_def size_of_def)
  have "px (paste C1 S (200 + width F - width S div 2, 200) S)
      (200 + width F - width S div 2 + x) (200 + height S div 2 - height S div 2 + y) =
      blend_px (alpha (px S x y))
        (px C1 (200 + width F - width S div 2 + x) (200 + height S div 2 - height S div 2 + y))
        (px S x y)"
    using ib assms(1) by (simp add: paste_simps)
  then show ?thesis unfolding C1_def by (subst canvas_as_paste) assumption
qed

lemma canvas_px_not_logo:
  assumes "\<not> in_bounds S (x - (200 + width F - width S div 2))
             (y - (200 + height S div 2 - height S div 2))"
  shows "px (canvas_image F S) x y =
         px (paste (new_image (size_of (canvas_image F S)) transparent) F
               (200, 200 + height S div 2) F) x y"
proof -
  define C1 where "C1 = paste (new_image (size_of (canvas_image F S)) transparent) F
      (200, 200 + height S div 2) F"
  have C: "canvas_image F S = paste C1 S (200 + width F - width S div 2, 200) S"
    unfolding C1_def by (rule canvas_as_paste)
  have "px (paste C1 S (200 + width F - width S div 2, 200) S) x y = px C1 x y"
    using assms by (simp add: paste_simps)
  then show ?thesis unfolding C1_def by (subst canvas_as_paste) assumption
qed

text \<open>
C3: the scaled logo is pasted with its left edge at
  \<open>window_x + frame width - logo width div 2\<close> and its top edge at
  \<open>window_y - logo height div 2\<close>, where \<open>(window_x, window_y) = (200, 200 + logo height div 2)\<close>
  is where the frame was pasted: the pixel \<open>(x, y)\<close> of the logo is blended onto the canvas
  pixel at that offset (over what the canvas held once the frame was pasted), and the
  canvas pixels outside that rectangle are as they were once the frame was pasted. So the
  logo reaches \<open>logo width div 2\<close> columns left of the frame's right edge and
  \<open>logo height div 2\<close> rows above the frame's top edge.
\<close>

theorem logo_position:
  "(\<forall>x y. in_bounds (obj (final_state L a l) logo_scaled_obj) x y \<and>
      in_bounds (obj (final_state L a l) composited_obj)
        (200 + width (obj (final_state L a l) frame_obj)
           - width (obj (final_state L a l) logo_scaled_obj) div 2 + x)
        (200 + height (obj (final_state L a l) logo_scaled_obj) div 2
           - height (obj (final_state L a l) logo_scaled_obj) div 2 + y) \<longrightarrow>
      px (obj (final_state L a l) composited_obj)
        (200 + width (obj (final_state L a l) frame_obj)
           - width (obj (final_state L a l) logo_scaled_obj) div 2 + x)
        (200 + height (obj (final_state L a l) logo_scaled_obj) div 2
           - height (obj (final_state L a l) logo_scaled_obj) div 2 + y) =
        blend_px (alpha (px (obj (final_state L a l) logo_scaled_obj) x y))
          (px (paste (new_image (size_of (obj (final_state L a l) composited_obj)) transparent)
                 (obj (final_state L a l) frame_obj)
                 (200, 200 + height (obj (final_state L a l) logo_scaled_obj) div 2)
                 (obj (final_state L a l) frame_obj))
             (200 + width (obj (final_state L a l) frame_obj)
                - width (obj (final_state L a l) logo_scaled_obj) div 2 + x)
             (200 + height (obj (final_state L a l) logo_scaled_obj) div 2
                - height (obj (final_state L a l) logo_scaled_obj) div 2 + y))
          (px (obj (final_state L a l) logo_scaled_obj) x y)) \<and>
   (\<forall>x y. \<not> in_bounds (obj (final_state L a l) logo_scaled_obj)
        (x - (200 + width (obj (final_state L a l) frame_obj)
           - width (obj (final_state L a l) logo_scaled_obj) div 2))
        (y - (200 + height (obj (final_state L a l) logo_scaled_obj) div 2
           - height (obj (final_state L a l) logo_scaled_obj) div 2)) \<longrightarrow>
      px (obj (final_state L a l) composited_obj) x y =
        px (paste (new_image (size_of (obj (final_state L a l) composited_obj)) transparent)
              (obj (final_state L a l) frame_obj)
              (200, 200 + height (obj (final_state L a l) logo_scaled_obj) div 2)
              (obj (final_state L a l) frame_obj)) x y)"
  unfolding frame_is logo_scaled_is composited_is
  using canvas_px_logo [of "thumbnail L l (650, 650)" _ _ "frame_image L a"]
    canvas_px_not_logo [of "thumbnail L l (650, 650)" _ "frame_image L a"]
  by blast


lemma example_canvas_size:
  "width (obj example_run composited_obj) = 484" "height (obj example_run composited_obj) = 482"
  using example_scaled example_frame_size
  by (simp_all add: example_run_def composited_is canvas_image_simps frame_is logo_scaled_is
      example_defs)

theorem logo_position_witness:
  "in_bounds (obj example_run logo_scaled_obj) 0 0 \<and>
   in_bounds (obj example_run composited_obj) 280 200 \<and>
   px (obj example_run composited_obj) 280 200 = (100, 50, 25, 64)"
proof -
  note t = logo_position [of example_pil example_screenshot example_logo,
      folded example_run_def, unfolded example_scaled example_frame_size]
  have wh: "width example_logo = 4" "height example_logo = 2"
    "px example_logo 0 0 = (200, 100, 50, 128)"
    by (simp_all add: example_defs)
  have ib: "in_bounds example_logo 0 0" "in_bounds (obj example_run composited_obj) 280 200"
    by (simp_all add: in_bounds_def wh example_canvas_size)
  have u: "px (paste (new_image (size_of (obj example_run composited_obj)) transparent)
      (obj example_run frame_obj) (200, 200 + height example_logo div 2)
      (obj example_run frame_obj)) 280 200 = transparent"
    by (simp add: paste_simps in_bounds_def example_frame_size wh new_image_def)
  have e: "200 + 82 - width example_logo div 2 + 0 = (280 :: int)"
    "200 + height example_logo div 2 - height example_logo div 2 + 0 = (200 :: int)"
    by (simp_all add: wh)
  have ib': "in_bounds (obj example_run composited_obj)
      (200 + 82 - width example_logo div 2 + 0)
      (200 + height example_logo div 2 - height example_logo div 2 + 0)"
    unfolding e by (rule ib(2))
  from t ib(1) ib'
  have "px (obj example_run composited_obj)
      (200 + 82 - width example_logo div 2 + 0)
      (200 + height example_logo div 2 - height example_logo div 2 + 0) =
      blend_px (alpha (px example_logo 0 0))
        (px (paste (new_image (size_of (obj example_run composited_obj)) transparent)
          (obj example_run frame_obj) (200, 200 + height example_logo div 2)
          (obj example_run frame_obj))
          (200 + 82 - width example_logo div 2 + 0)
          (200 + height example_logo div 2 - height example_logo div 2 + 0))
        (px example_logo 0 0)"
    by blast
  then have "px (obj example_run composited_obj) 280 200 = (100, 50, 25, 64)"
    unfolding e u
    by (simp add: wh alpha_def blend_px_def transparent_def BLEND_def DIV255_def)
  then show ?thesis using ib by (simp add: example_scaled)
qed

section \<open>The run as a process\<close>

lemma load_both:
  assumes "files w ''media/raw_screenshot.png'' = Some (ImageFile a)"
    and "files w ''media/logo.png'' = Some (ImageFile l)"
  shows "combine L w =
    (case save (obj (final_state L a l) canvas_obj) output_path w of
       (Inl e, w') \<Rightarrow> (Inl e, w')
     | (Inr u, w') \<Rightarrow> (Inr (), print (''Saved combined image to '' @ output_path) w'))"
  using assms
  by (simp add: combine_def Image_open_def final_state_def obj_def Let_def split_def)

lemma combine_success:
  assumes "files w ''media/raw_screenshot.png'' = Some (ImageFile a)"
    and "files w ''media/logo.png'' = Some (ImageFile l)"
    and "save_failure w output_path (obj (final_state L a l) canvas_obj) = None"
  shows "combine L w =
    (Inr (), w\<lparr>files := (files w)(output_path \<mapsto> ImageFile (obj (final_state L a l) canvas_obj)),
              stdout := stdout w @ [''Saved combined image to '' @ output_path]\<rparr>)"
  using assms(3) by (simp add: load_both [OF assms(1,2)] save_def print_def)

lemma combine_save_fails:
  assumes "files w ''media/raw_screenshot.png'' = Some (ImageFile a)"
    and "files w ''media/logo.png'' = Some (ImageFile l)"
    and "save_failure w output_path (obj (final_state L a l) canvas_obj) = Some (e, d)"
  shows "combine L w = (Inl e, w\<lparr>files := after_failure d output_path (files w)\<rparr>)"
  using assms(3) by (simp add: load_both [OF assms(1,2)] save_def)

lemma combine_load_fails:
  "files w ''media/raw_screenshot.png'' = None \<Longrightarrow>
     combine L w = (Inl (FileNotFoundError ''media/raw_screenshot.png''), w)"
  "files w ''media/raw_screenshot.png'' = Some (BrokenFile e) \<Longrightarrow> combine L w = (Inl e, w)"
  "files w ''media/raw_screenshot.png'' = Some (ImageFile a) \<Longrightarrow>
     files w ''media/logo.png'' = None \<Longrightarrow>
     combine L w = (Inl (FileNotFoundError ''media/logo.png''), w)"
  "files w ''media/raw_screenshot.png'' = Some (ImageFile a) \<Longrightarrow>
     files w ''media/logo.png'' = Some (BrokenFile e) \<Longrightarrow> combine L w = (Inl e, w)"
  by (simp_all add: combine_def Image_open_def alloc_def)

lemma saved_image:
  assumes "files w ''media/raw_screenshot.png'' = Some (ImageFile a)"
    and "files w ''media/logo.png'' = Some (ImageFile l)"
    and "save_failure w output_path (obj (final_state L a l) canvas_obj) = None"
  shows "files (snd (combine L w)) output_path =
    Some (ImageFile (obj (final_state L a l) canvas_obj))"
  by (simp add: combine_success [OF assms])



text \<open>Every run takes one of these five courses.\<close>

lemma combine_cases:
  obtains
    (no_screenshot) "files w ''media/raw_screenshot.png'' = None"
  | (bad_screenshot) e where "files w ''media/raw_screenshot.png'' = Some (BrokenFile e)"
  | (no_logo) a where "files w ''media/raw_screenshot.png'' = Some (ImageFile a)"
      "files w ''media/logo.png'' = None"
  | (bad_logo) a e where "files w ''media/raw_screenshot.png'' = Some (ImageFile a)"
      "files w ''media/logo.png'' = Some (BrokenFile e)"
  | (save_fails) a l e d where "files w ''media/raw_screenshot.png'' = Some (ImageFile a)"
      "files w ''media/logo.png'' = Some (ImageFile l)"
      "save_failure w output_path (obj (final_state L a l) canvas_obj) = Some (e, d)"
  | (saved) a l where "files w ''media/raw_screenshot.png'' = Some (ImageFile a)"
      "files w ''media/logo.png'' = Some (ImageFile l)"
      "save_failure w output_path (obj (final_state L a l) canvas_obj) = None"
proof (cases "files w ''media/raw_screenshot.png''")
  case None
  then show ?thesis by (rule no_screenshot)
next
  case (Some f)
  show ?thesis
  proof (cases f)
    case (BrokenFile e)
    with Some show ?thesis by (intro bad_screenshot) simp
  next
    case (ImageFile a)
    note a = Some [unfolded ImageFile]
    show ?thesis
    proof (cases "files w ''media/logo.png''")
      case None
      with a show ?thesis by (rule no_logo)
    next
      case (Some g)
      show ?thesis
      proof (cases g)
        case (BrokenFile e)
        with Some a show ?thesis by (intro bad_logo) simp_all
      next
        case (ImageFile l)
        note l = Some [unfolded ImageFile]
        show ?thesis
        proof (cases "save_failure w output_path (obj (final_state L a l) canvas_obj)")
          case None
          with a l show ?thesis by (rule saved)
        next
          case (Some ed)
          then obtain e d where "save_failure w output_path (obj (final_state L a l) canvas_obj) = Some (e, d)"
            by (cases ed) simp
          with a l show ?thesis by (rule save_fails)
        qed
      qed
    qed
  qed
qed


lemma combine_succeeded:
  assumes "fst (combine L w) = Inr ()"
  shows "\<exists>a l. files w ''media/raw_screenshot.png'' = Some (ImageFile a) \<and>
               files w ''media/logo.png'' = Some (ImageFile l) \<and>
               save_failure w output_path (obj (final_state L a l) canvas_obj) = None"
proof (cases rule: combine_cases [where w = w and L = L])
  case (save_fails a l e' d)
  with assms show ?thesis by (simp add: combine_save_fails [OF save_fails])
next
  case (saved a l)
  then show ?thesis by blast
qed (use assms in \<open>simp_all add: combine_load_fails\<close>)


lemma example_world_files:
  "files example_world ''media/raw_screenshot.png'' = Some (ImageFile example_screenshot)"
  "files example_world ''media/logo.png'' = Some (ImageFile example_logo)"
  "save_failure example_world p img = None"
  "files example_world output_path = None"
  "stdout example_world = []"
  by (simp_all add: example_world_def output_path_def)


section \<open>What a run reads and writes\<close>






lemma example_run_succeeds: "fst (combine example_pil example_world) = Inr ()"
  by (simp add: combine_success [OF example_world_files(1,2,3)])

lemma example_world_other_files:
  "files example_world_other ''media/raw_screenshot.png'' = files example_world ''media/raw_screenshot.png''"
  "files example_world_other ''media/logo.png'' = files example_world ''media/logo.png''"
  "save_failure example_world_other = save_failure example_world"
  "files example_world_other ''notes.txt'' = Some (BrokenFile (UnidentifiedImageError ''notes.txt''))"
  "stdout example_world_other = [''earlier output'']"
  by (simp_all add: example_world_other_def)


section \<open>Two runs on the same images\<close>

text \<open>
C2: two runs whose worlds hold the same screenshot and the same logo, and which both
  complete, save the same image: the same dimensions and the same pixels. Nothing else
  of the world (other files, earlier output) enters the result.
\<close>

theorem deterministic:
  assumes "files w1 ''media/raw_screenshot.png'' = files w2 ''media/raw_screenshot.png''"
    and "files w1 ''media/logo.png'' = files w2 ''media/logo.png''"
    and "fst (combine L w1) = Inr ()" "fst (combine L w2) = Inr ()"
  shows "\<exists>a l. files w1 ''media/raw_screenshot.png'' = Some (ImageFile a) \<and>
           files w1 ''media/logo.png'' = Some (ImageFile l) \<and>
           files (snd (combine L w1)) output_path
             = Some (ImageFile (obj (final_state L a l) canvas_obj)) \<and>
           files (snd (combine L w2)) output_path
             = Some (ImageFile (obj (final_state L a l) canvas_obj))"
proof -
  obtain a l where s1: "files w1 ''media/raw_screenshot.png'' = Some (ImageFile a)"
    "files w1 ''media/logo.png'' = Some (ImageFile l)"
    "save_failure w1 output_path (obj (final_state L a l) canvas_obj) = None"
    using combine_succeeded [OF assms(3)] by blast
  obtain a' l' where s2: "files w2 ''media/raw_screenshot.png'' = Some (ImageFile a')"
    "files w2 ''media/logo.png'' = Some (ImageFile l')"
    "save_failure w2 output_path (obj (final_state L a' l') canvas_obj) = None"
    using combine_succeeded [OF assms(4)] by blast
  have eq: "a' = a" "l' = l" using s1(1,2) s2(1,2) assms(1,2) by simp_all
  show ?thesis
    using s1(1,2) by (simp add: combine_success [OF s1] combine_success [OF s2 [unfolded eq]])
qed

theorem deterministic_witness:
  "files example_world ''media/raw_screenshot.png'' = files example_world_other ''media/raw_screenshot.png'' \<and>
   files example_world ''media/logo.png'' = files example_world_other ''media/logo.png'' \<and>
   stdout example_world \<noteq> stdout example_world_other \<and>
   fst (combine example_pil example_world) = Inr () \<and>
   fst (combine example_pil example_world_other) = Inr () \<and>
   files (snd (combine example_pil example_world)) output_path
     = Some (ImageFile (obj example_run canvas_obj)) \<and>
   files (snd (combine example_pil example_world_other)) output_path
     = Some (ImageFile (obj example_run canvas_obj))"
proof -
  have ok: "fst (combine example_pil example_world_other) = Inr ()"
    by (subst combine_success [where a = example_screenshot and l = example_logo])
       (simp_all add: example_world_other_files example_world_files)
  from deterministic [OF example_world_other_files(1,2) [symmetric] example_run_succeeds ok]
  show ?thesis
    using example_run_succeeds ok
    by (simp add: example_world_other_files example_world_files example_run_def)
qed

section \<open>The saved image\<close>

lemma padded_simps:
  "width (padded C) = width C + 200" "height (padded C) = height C + 200"
  "px (padded C) x y =
     (if in_bounds (padded C) x y \<and> in_bounds C (x - 100) (y - 100)
      then blend_px (alpha (px C (x - 100) (y - 100))) transparent (px C (x - 100) (y - 100))
      else transparent)"
  by (simp_all add: padded_def paste_simps new_image_def in_bounds_def)

lemma crop_simps:
  "width (crop C (x0, y0, x1, y1)) = x1 - x0" "height (crop C (x0, y0, x1, y1)) = y1 - y0"
  "px (crop C (x0, y0, x1, y1)) x y =
     (if in_bounds C (x + x0) (y + y0) then px C (x + x0) (y + y0) else transparent)"
  by (simp_all add: crop_def)

lemma padded_crop_px:
  assumes "getbbox L C = Some (x0, y0, x1, y1)"
    and "0 \<le> x" "x < x1 - x0" "0 \<le> y" "y < y1 - y0"
  shows "px (padded (crop C (x0, y0, x1, y1))) (100 + x) (100 + y) =
           blend_px (alpha (px C (x0 + x) (y0 + y))) transparent (px C (x0 + x) (y0 + y))"
proof -
  have b: "0 \<le> x0 \<and> x1 \<le> width C \<and> 0 \<le> y0 \<and> y1 \<le> height C"
    by (rule getbbox_bounds [OF assms(1)])
  have 1: "in_bounds C (x + x0) (y + y0)"
    using b assms(2-5) by (simp add: in_bounds_def)
  have 2: "in_bounds (crop C (x0, y0, x1, y1)) x y"
    using assms(2-5) by (simp add: in_bounds_def crop_simps)
  have 3: "in_bounds (padded (crop C (x0, y0, x1, y1))) (100 + x) (100 + y)"
    using assms(2-5) by (simp add: in_bounds_def crop_simps padded_simps)
  show ?thesis
    using 1 2 3 by (simp add: padded_simps(3) crop_simps(3) add.commute)
qed

lemma padded_border:
  assumes "x < 100 \<or> y < 100 \<or> width (padded C) - 100 \<le> x \<or> height (padded C) - 100 \<le> y"
  shows "px (padded C) x y = transparent"
proof -
  have "\<not> in_bounds C (x - 100) (y - 100)"
    using assms by (auto simp: in_bounds_def padded_simps(1,2))
  then show ?thesis by (simp add: padded_simps(3))
qed

lemma sorted_hd_le: "sorted xs \<Longrightarrow> x \<in> set xs \<Longrightarrow> hd xs \<le> (x :: int)"
  by (cases xs) auto

lemma sorted_le_last: "sorted xs \<Longrightarrow> x \<in> set xs \<Longrightarrow> (x :: int) \<le> last xs"
  by (induction xs) auto

lemma getbbox_eqI:
  assumes inside: "\<And>x y. in_bounds img x y \<Longrightarrow> has_data (bbox_alpha_only L) (px img x y) \<Longrightarrow>
      x0 \<le> x \<and> x < x1 \<and> y0 \<le> y \<and> y < y1"
    and left: "in_bounds img x0 ya" "has_data (bbox_alpha_only L) (px img x0 ya)"
    and right: "in_bounds img (x1 - 1) yb" "has_data (bbox_alpha_only L) (px img (x1 - 1) yb)"
    and top: "in_bounds img xa y0" "has_data (bbox_alpha_only L) (px img xa y0)"
    and bottom: "in_bounds img xb (y1 - 1)" "has_data (bbox_alpha_only L) (px img xb (y1 - 1))"
  shows "getbbox L img = Some (x0, y0, x1, y1)"
proof -
  define cols where "cols = filter (\<lambda>x. \<exists>y \<in> set [0 .. height img - 1].
      has_data (bbox_alpha_only L) (px img x y)) [0 .. width img - 1]"
  define rows where "rows = filter (\<lambda>y. \<exists>x \<in> set [0 .. width img - 1].
      has_data (bbox_alpha_only L) (px img x y)) [0 .. height img - 1]"
  have mem: "x \<in> set cols \<and> y \<in> set rows"
    if "in_bounds img x y" "has_data (bbox_alpha_only L) (px img x y)" for x y
    using that by (auto simp: cols_def rows_def in_bounds_def)
  have cols_in: "x0 \<le> x \<and> x < x1" if "x \<in> set cols" for x
    using that inside by (auto simp: cols_def in_bounds_def)
  have rows_in: "y0 \<le> y \<and> y < y1" if "y \<in> set rows" for y
    using that inside by (auto simp: rows_def in_bounds_def)
  have s: "sorted cols" "sorted rows"
    by (simp_all add: cols_def rows_def sorted_wrt_filter)
  have c: "x0 \<in> set cols" "x1 - 1 \<in> set cols" "y0 \<in> set rows" "y1 - 1 \<in> set rows"
    using mem [OF left] mem [OF right] mem [OF top] mem [OF bottom] by simp_all
  then have ne: "cols \<noteq> []" "rows \<noteq> []" by auto
  have "hd cols \<in> set cols" "last cols \<in> set cols" "hd rows \<in> set rows" "last rows \<in> set rows"
    using ne by simp_all
  then have "x0 \<le> hd cols" "last cols < x1" "y0 \<le> hd rows" "last rows < y1"
    using cols_in rows_in by blast+
  moreover have "hd cols \<le> x0" "x1 - 1 \<le> last cols" "hd rows \<le> y0" "y1 - 1 \<le> last rows"
    using s c by (simp_all add: sorted_hd_le sorted_le_last)
  ultimately have "hd cols = x0" "last cols + 1 = x1" "hd rows = y0" "last rows + 1 = y1"
    by simp_all
  moreover have "getbbox L img =
      (if rows = [] then None else Some (hd cols, hd rows, last cols + 1, last rows + 1))"
    unfolding getbbox_def Let_def cols_def rows_def ..
  ultimately show ?thesis using ne by simp
qed

lemma example_frame_alpha:
  "in_bounds (obj example_run frame_obj) x y \<Longrightarrow> alpha (px (obj example_run frame_obj) x y) = 255"
  by (auto simp: example_run_def frame_is frame_image_def paste_simps rounded_simps
      drawn_frame_def rounded_rectangle_def in_bounds_def example_defs rounded_def putalpha_def
      alpha_def blend_px_255 blend_px_0 size_of_def)

lemma example_canvas_alpha:
  assumes "in_bounds (obj example_run composited_obj) x y"
  shows "alpha (px (obj example_run composited_obj) x y) \<noteq> 0 \<longleftrightarrow>
           in_bounds (obj example_run frame_obj) (x - 200) (y - 201) \<or>
           in_bounds example_logo (x - 280) (y - 200)"
proof -
  let ?F = "obj example_run frame_obj"
  define u where "u = (if in_bounds ?F (x - 200) (y - 201)
      then blend_px (alpha (px ?F (x - 200) (y - 201))) transparent (px ?F (x - 200) (y - 201))
      else transparent)"
  have wh: "width example_logo = 4" "height example_logo = 2"
    "px example_logo i j = (200, 100, 50, 128)" for i j
    by (simp_all add: example_defs)
  have C: "obj example_run composited_obj = canvas_image ?F example_logo"
    using example_scaled by (simp add: example_run_def composited_is frame_is logo_scaled_is)
  have p: "px (obj example_run composited_obj) x y =
      (if in_bounds example_logo (x - 280) (y - 200)
       then blend_px 128 u (200, 100, 50, 128) else u)"
    using assms unfolding C
    by (subst canvas_image_px) (simp add: Let_def wh example_frame_size u_def alpha_def)
  have ua: "alpha u = (if in_bounds ?F (x - 200) (y - 201) then 255 else 0)"
    using example_frame_alpha [of "x - 200" "y - 201"]
    by (auto simp: u_def blend_px_255 transparent_def alpha_def)
  have over: "alpha (blend_px 128 u (200, 100, 50, 128)) \<noteq> 0"
  proof (cases "in_bounds ?F (x - 200) (y - 201)")
    case True
    then have "alpha u = 255" by (simp add: ua)
    from alpha_blend_over_opaque [OF this, of "(200, 100, 50, 128)"]
    show ?thesis by (simp add: alpha_def)
  next
    case False
    then have "u = transparent" by (simp add: u_def)
    then show ?thesis
      by (simp add: blend_px_def transparent_def alpha_def BLEND_def DIV255_def)
  qed
  show ?thesis
    unfolding p using over ua by auto
qed

lemma example_bbox:
  "getbbox example_pil (obj example_run composited_obj) = Some (200, 200, 284, 282)"
proof (rule getbbox_eqI [where ya = 241 and yb = 200 and xa = 280 and xb = 241])
  have d: "has_data (bbox_alpha_only example_pil) p \<longleftrightarrow> alpha p \<noteq> 0" for p
    by (simp add: has_data_def example_pil_def)
  have wh: "width example_logo = 4" "height example_logo = 2"
    by (simp_all add: example_defs)
  note ib = in_bounds_def example_canvas_size example_frame_size wh
  fix x y
  assume "in_bounds (obj example_run composited_obj) x y"
    "has_data (bbox_alpha_only example_pil) (px (obj example_run composited_obj) x y)"
  then show "200 \<le> x \<and> x < 284 \<and> 200 \<le> y \<and> y < 282"
    by (auto simp: d example_canvas_alpha) (auto simp: ib)
next
  have d: "has_data (bbox_alpha_only example_pil) p \<longleftrightarrow> alpha p \<noteq> 0" for p
    by (simp add: has_data_def example_pil_def)
  have wh: "width example_logo = 4" "height example_logo = 2"
    by (simp_all add: example_defs)
  note ib = in_bounds_def example_canvas_size example_frame_size wh
  show "in_bounds (obj example_run composited_obj) 200 241"
    "in_bounds (obj example_run composited_obj) (284 - 1) 200"
    "in_bounds (obj example_run composited_obj) 280 200"
    "in_bounds (obj example_run composited_obj) 241 (282 - 1)"
    by (simp_all add: ib)
  then show "has_data (bbox_alpha_only example_pil) (px (obj example_run composited_obj) 200 241)"
    "has_data (bbox_alpha_only example_pil) (px (obj example_run composited_obj) (284 - 1) 200)"
    "has_data (bbox_alpha_only example_pil) (px (obj example_run composited_obj) 280 200)"
    "has_data (bbox_alpha_only example_pil) (px (obj example_run composited_obj) 241 (282 - 1))"
    by (simp_all add: d example_canvas_alpha) (simp_all add: ib)
qed

lemma getbbox_nonempty:
  assumes "getbbox L img = Some (x0, y0, x1, y1)"
  shows "x0 < x1 \<and> y0 < y1"
proof -
  define cols where "cols = filter (\<lambda>x. \<exists>y \<in> set [0 .. height img - 1].
      has_data (bbox_alpha_only L) (px img x y)) [0 .. width img - 1]"
  define rows where "rows = filter (\<lambda>y. \<exists>x \<in> set [0 .. width img - 1].
      has_data (bbox_alpha_only L) (px img x y)) [0 .. height img - 1]"
  have g: "getbbox L img =
      (if rows = [] then None else Some (hd cols, hd rows, last cols + 1, last rows + 1))"
    unfolding getbbox_def Let_def cols_def rows_def ..
  with assms have r: "rows \<noteq> []"
    and eq: "x0 = hd cols" "y0 = hd rows" "x1 = last cols + 1" "y1 = last rows + 1"
    by (auto split: if_splits)
  from r obtain y where "y \<in> set rows" by (cases rows) auto
  then obtain x where "x \<in> set [0 .. width img - 1]" "y \<in> set [0 .. height img - 1]"
      "has_data (bbox_alpha_only L) (px img x y)"
    by (auto simp: rows_def)
  then have "x \<in> set cols" by (auto simp: cols_def)
  then have c: "cols \<noteq> []" by auto
  have s: "sorted cols" "sorted rows"
    by (simp_all add: cols_def rows_def sorted_wrt_filter)
  have "hd cols \<le> last cols" "hd rows \<le> last rows"
    using s c r by (simp_all add: sorted_hd_le)
  then show ?thesis by (simp add: eq)
qed

lemma example_canvas_px:
  "px (obj example_run composited_obj) 242 241 = (20, 20, 20, 255)"
  "px (obj example_run composited_obj) 280 200 = (100, 50, 25, 64)"
proof -
  let ?F = "obj example_run frame_obj"
  have wh: "width example_logo = 4" "height example_logo = 2"
    "px example_logo i j = (200, 100, 50, 128)" for i j
    by (simp_all add: example_defs)
  have C: "obj example_run composited_obj = canvas_image ?F example_logo"
    using example_scaled by (simp add: example_run_def composited_is frame_is logo_scaled_is)
  have f: "px ?F 42 40 = (20, 20, 20, 255)"
    by (rule example_frame_px) (simp_all add: in_bounds_def example_defs)
  note ib = in_bounds_def example_canvas_size [unfolded C] example_frame_size wh
  show "px (obj example_run composited_obj) 242 241 = (20, 20, 20, 255)"
    unfolding C
    by (subst canvas_image_px) (simp add: Let_def ib f alpha_def blend_px_255)
  show "px (obj example_run composited_obj) 280 200 = (100, 50, 25, 64)"
    unfolding C
    by (subst canvas_image_px)
       (simp add: Let_def ib alpha_def blend_px_def transparent_def BLEND_def DIV255_def)
qed

text \<open>
C1: when the composited canvas has the content bounding box \<open>(x0, y0, x1, y1)\<close>, the image
  saved has width \<open>(x1 - x0) + 200\<close> and height \<open>(y1 - y0) + 200\<close>, and the pixel \<open>(x, y)\<close>
  of the cropped content, which is the pixel \<open>(x0 + x, y0 + y)\<close> of the canvas, is pasted
  (through its own alpha, onto transparent) at \<open>(100 + x, 100 + y)\<close>: the content lies exactly
  100 pixels from the left and top edges and, by the dimensions, 100 pixels from the right
  and bottom edges.
\<close>

theorem output_geometry:
  assumes "files w ''media/raw_screenshot.png'' = Some (ImageFile a)"
    and "files w ''media/logo.png'' = Some (ImageFile l)"
    and "save_failure w output_path (obj (final_state L a l) canvas_obj) = None"
    and "getbbox L (obj (final_state L a l) composited_obj) = Some (x0, y0, x1, y1)"
  shows "files (snd (combine L w)) output_path
           = Some (ImageFile (obj (final_state L a l) canvas_obj)) \<and>
         width (obj (final_state L a l) canvas_obj) = (x1 - x0) + 200 \<and>
         height (obj (final_state L a l) canvas_obj) = (y1 - y0) + 200 \<and>
         (\<forall>x y. 0 \<le> x \<and> x < x1 - x0 \<and> 0 \<le> y \<and> y < y1 - y0 \<longrightarrow>
            px (obj (final_state L a l) canvas_obj) (100 + x) (100 + y) =
              blend_px (alpha (px (obj (final_state L a l) composited_obj) (x0 + x) (y0 + y)))
                transparent (px (obj (final_state L a l) composited_obj) (x0 + x) (y0 + y)))"
proof -
  let ?C = "canvas_image (frame_image L a) (thumbnail L l (650, 650))"
  have b: "getbbox L ?C = Some (x0, y0, x1, y1)"
    using assms(4) by (simp add: composited_is)
  have out: "obj (final_state L a l) canvas_obj = padded (crop ?C (x0, y0, x1, y1))"
    by (simp add: canvas_is b)
  show ?thesis
    unfolding out composited_is
    using padded_crop_px [OF b] saved_image [OF assms(1-3), unfolded out]
    by (simp add: padded_simps(1,2) crop_simps(1,2))
qed

theorem output_geometry_witness:
  "getbbox example_pil (obj example_run composited_obj) = Some (200, 200, 284, 282) \<and>
   files (snd (combine example_pil example_world)) output_path
     = Some (ImageFile (obj example_run canvas_obj)) \<and>
   size_of (obj example_run canvas_obj) = (284, 282) \<and>
   px (obj example_run canvas_obj) 142 141 = (20, 20, 20, 255) \<and>
   px (obj example_run canvas_obj) 180 100 = (25, 13, 6, 16)"
proof -
  note t = output_geometry [OF example_world_files(1,2,3)
      example_bbox [unfolded example_run_def], folded example_run_def]
  from t have p: "px (obj example_run canvas_obj) (100 + x) (100 + y) =
      blend_px (alpha (px (obj example_run composited_obj) (200 + x) (200 + y)))
        transparent (px (obj example_run composited_obj) (200 + x) (200 + y))"
    if "0 \<le> x \<and> x < 284 - 200 \<and> 0 \<le> y \<and> y < 282 - 200" for x y
    using that by blast
  have "px (obj example_run canvas_obj) 142 141 = (20, 20, 20, 255)"
    using p [of 42 41] by (simp add: example_canvas_px alpha_def blend_px_255)
  moreover have "px (obj example_run canvas_obj) 180 100 = (25, 13, 6, 16)"
    using p [of 80 0]
    by (simp add: example_canvas_px alpha_def blend_px_def transparent_def BLEND_def DIV255_def)
  ultimately show ?thesis
    using t example_bbox by (simp add: size_of_def)
qed

text \<open>
C10: when the composited canvas has a content bounding box, every pixel of the saved image
  that lies in its outer 100-pixel border (fewer than 100 columns from the left or right
  edge, or fewer than 100 rows from the top or bottom edge) is transparent black, and the
  image is more than 200 pixels wide and high, so that the border surrounds a non-empty
  interior.
\<close>

theorem border_transparent:
  assumes "files w ''media/raw_screenshot.png'' = Some (ImageFile a)"
    and "files w ''media/logo.png'' = Some (ImageFile l)"
    and "save_failure w output_path (obj (final_state L a l) canvas_obj) = None"
    and "getbbox L (obj (final_state L a l) composited_obj) = Some b"
  shows "files (snd (combine L w)) output_path
           = Some (ImageFile (obj (final_state L a l) canvas_obj)) \<and>
         200 < width (obj (final_state L a l) canvas_obj) \<and>
         200 < height (obj (final_state L a l) canvas_obj) \<and>
         (\<forall>x y. x < 100 \<or> y < 100 \<or>
                 width (obj (final_state L a l) canvas_obj) - 100 \<le> x \<or>
                 height (obj (final_state L a l) canvas_obj) - 100 \<le> y \<longrightarrow>
            px (obj (final_state L a l) canvas_obj) x y = (0, 0, 0, 0))"
proof -
  let ?C = "canvas_image (frame_image L a) (thumbnail L l (650, 650))"
  obtain x0 y0 x1 y1 where q: "b = (x0, y0, x1, y1)" by (cases b)
  have b: "getbbox L ?C = Some (x0, y0, x1, y1)"
    using assms(4) by (simp add: composited_is q)
  have out: "obj (final_state L a l) canvas_obj = padded (crop ?C (x0, y0, x1, y1))"
    by (simp add: canvas_is b)
  have "px (padded (crop ?C (x0, y0, x1, y1))) x y = (0, 0, 0, 0)"
    if "x < 100 \<or> y < 100 \<or> width (padded (crop ?C (x0, y0, x1, y1))) - 100 \<le> x \<or>
        height (padded (crop ?C (x0, y0, x1, y1))) - 100 \<le> y" for x y
    using padded_border [OF that] by (simp add: transparent_def)
  then show ?thesis
    unfolding out
    using getbbox_nonempty [OF b] saved_image [OF assms(1-3), unfolded out]
    by (simp add: padded_simps(1,2) crop_simps(1,2))
qed

theorem border_transparent_witness:
  "getbbox example_pil (obj example_run composited_obj) = Some (200, 200, 284, 282) \<and>
   files (snd (combine example_pil example_world)) output_path
     = Some (ImageFile (obj example_run canvas_obj)) \<and>
   px (obj example_run canvas_obj) 0 0 = (0, 0, 0, 0) \<and>
   px (obj example_run canvas_obj) 99 141 = (0, 0, 0, 0) \<and>
   px (obj example_run canvas_obj) 142 99 = (0, 0, 0, 0) \<and>
   px (obj example_run canvas_obj) 184 141 = (0, 0, 0, 0) \<and>
   px (obj example_run canvas_obj) 142 182 = (0, 0, 0, 0) \<and>
   px (obj example_run canvas_obj) 283 281 = (0, 0, 0, 0)"
proof -
  note t = border_transparent [OF example_world_files(1,2,3)
      example_bbox [unfolded example_run_def], folded example_run_def]
  have sz: "width (obj example_run canvas_obj) = 284" "height (obj example_run canvas_obj) = 282"
    using example_bbox
    by (simp_all add: example_run_def canvas_is composited_is padded_simps(1,2) crop_simps(1,2))
  from t have z: "px (obj example_run canvas_obj) x y = (0, 0, 0, 0)"
    if "x < 100 \<or> y < 100 \<or> 284 - 100 \<le> x \<or> 282 - 100 \<le> y" for x y
    using that unfolding sz by blast
  show ?thesis
    using t example_bbox by (simp add: z)
qed

end
